theory Spec2Isabelle
  imports Main "HOL-Library.Multiset" "HOL-Library.Sublist" "HOL-Library.AList"
begin

section \<open>The password manager of project3.py\<close>

text \<open>
  The theory embeds the class \<^verbatim>\<open>PasswordManager\<close> of \<^verbatim>\<open>src/project3.py\<close>.
  Python strings and byte strings are character lists. The functions of the
  libraries the class calls (\<^verbatim>\<open>str.lower\<close>, \<^verbatim>\<open>hashlib\<close>, \<^verbatim>\<open>cryptography.fernet\<close>,
  \<^verbatim>\<open>json\<close>) are not part of the repository: they are the fields of a record \<open>lib\<close> that every
  function of the model takes as its first argument, so that each theorem holds for
  every behaviour of these libraries. The sources of randomness (\<^verbatim>\<open>secrets\<close>,
  \<^verbatim>\<open>os.urandom\<close>) are an infinite sequence of draws carried by the state.
\<close>

subsection \<open>Strings\<close>

type_synonym bytes = "char list"

definition ascii_lowercase :: string where
  "ascii_lowercase = ''abcdefghijklmnopqrstuvwxyz''"

definition ascii_uppercase :: string where
  "ascii_uppercase = ''ABCDEFGHIJKLMNOPQRSTUVWXYZ''"

definition ascii_letters :: string where
  "ascii_letters = ascii_lowercase @ ascii_uppercase"

definition digits :: string where
  "digits = ''0123456789''"

text \<open>
  \<^verbatim>\<open>string.punctuation\<close>: the 32 printable ASCII characters that are neither letters
  nor digits nor the space, in the order of their codes. The double quote (0x22), the
  apostrophe (0x27), the backslash (0x5C) and the backquote (0x60) are written by code.
\<close>

definition punctuation :: string where
  "punctuation =
     ''!'' @ [CHR 0x22] @ ''#$%&'' @ [CHR 0x27] @ ''()*+,-./:;<=>?@['' @ [CHR 0x5C] @
     '']^_'' @ [CHR 0x60] @ ''{|}~''"

subsection \<open>Secure random draws\<close>

text \<open>
  The random source is an infinite sequence of natural numbers; each call of
  \<^verbatim>\<open>randbelow\<close> takes the next one. \<^verbatim>\<open>secrets.choice(seq)\<close> is
  \<^verbatim>\<open>seq[randbelow(len(seq))]\<close>; the source calls it on non-empty constants only.
  \<^verbatim>\<open>SystemRandom().shuffle(x)\<close> is the loop
  \<^verbatim>\<open>for i in reversed(range(1, len(x))): j = randbelow(i + 1); x[i], x[j] = x[j], x[i]\<close>.
\<close>

type_synonym rand = "nat \<Rightarrow> nat"

definition randbelow :: "nat \<Rightarrow> rand \<Rightarrow> nat \<times> rand" where
  "randbelow n rs = (rs 0 mod n, \<lambda>i. rs (Suc i))"

definition choice :: "'a list \<Rightarrow> rand \<Rightarrow> 'a \<times> rand" where
  "choice seq rs = (case randbelow (length seq) rs of (j, rs') \<Rightarrow> (seq ! j, rs'))"

fun shuffle_loop :: "nat \<Rightarrow> 'a list \<Rightarrow> rand \<Rightarrow> 'a list \<times> rand" where
  "shuffle_loop 0 x rs = (x, rs)"
| "shuffle_loop (Suc i) x rs =
     (case randbelow (Suc i + 1) rs of
        (j, rs') \<Rightarrow> shuffle_loop i (x[Suc i := x ! j, j := x ! Suc i]) rs')"

definition shuffle :: "'a list \<Rightarrow> rand \<Rightarrow> 'a list \<times> rand" where
  "shuffle x rs = shuffle_loop (length x - 1) x rs"

subsection \<open>generate\_password\<close>

text \<open>The loop \<^verbatim>\<open>for _ in range(n): password.append(secrets.choice(chars))\<close>.\<close>

fun fill :: "nat \<Rightarrow> string \<Rightarrow> string \<Rightarrow> rand \<Rightarrow> string \<times> rand" where
  "fill 0 chars password rs = (password, rs)"
| "fill (Suc n) chars password rs =
     (case choice chars rs of (c, rs') \<Rightarrow> fill n chars (password @ [c]) rs')"

definition universe :: "bool \<Rightarrow> bool \<Rightarrow> string" where
  "universe use_symbols use_numbers =
     ascii_letters @ (if use_numbers then digits else []) @
     (if use_symbols then punctuation else [])"

text \<open>The characters appended before the fill loop, one per mandatory class.\<close>

definition mandatory :: "bool \<Rightarrow> bool \<Rightarrow> rand \<Rightarrow> string \<times> rand" where
  "mandatory use_symbols use_numbers rs =
     (case (if use_numbers then (case choice digits rs of (c, r) \<Rightarrow> ([c], r)) else ([], rs)) of
        (p1, rs1) \<Rightarrow>
     (case (if use_symbols then (case choice punctuation rs1 of (c, r) \<Rightarrow> (p1 @ [c], r))
            else (p1, rs1)) of
        (p2, rs2) \<Rightarrow>
     (case choice ascii_lowercase rs2 of
        (c3, rs3) \<Rightarrow>
     (case choice ascii_uppercase rs3 of
        (c4, rs4) \<Rightarrow> (p2 @ [c3] @ [c4], rs4)))))"

text \<open>
  \<open>length\<close> is a Python integer and may be smaller than the number of characters
  already appended, or negative: \<^verbatim>\<open>range\<close> of a negative number is empty.
\<close>

definition generate_password :: "int \<Rightarrow> bool \<Rightarrow> bool \<Rightarrow> rand \<Rightarrow> string \<times> rand" where
  "generate_password len use_symbols use_numbers rs =
     (let chars = universe use_symbols use_numbers
      in case mandatory use_symbols use_numbers rs of
           (password, rs1) \<Rightarrow>
             (case fill (nat (len - int (length password))) chars password rs1 of
                (password', rs2) \<Rightarrow> shuffle password' rs2))"

text \<open>The number of mandatory character classes of a request.\<close>

definition mandatory_count :: "bool \<Rightarrow> bool \<Rightarrow> nat" where
  "mandatory_count use_symbols use_numbers =
     2 + (if use_numbers then 1 else 0) + (if use_symbols then 1 else 0)"

subsection \<open>Libraries, credentials and the state\<close>

text \<open>
  A credential is the dictionary with the keys \<^verbatim>\<open>'service'\<close>, \<^verbatim>\<open>'username'\<close> and
  \<^verbatim>\<open>'password'\<close> that \<^verbatim>\<open>add_password\<close> builds. \<^verbatim>\<open>self.passwords\<close> is a Python
  dictionary, which keeps its keys in insertion order: an association list, read with
  \<open>map_of\<close>, assigned with \<open>AList.update\<close> (an existing key keeps its place, a new one
  goes to the end) and deleted from with \<open>AList.delete\<close>.
\<close>

record credential =
  service :: string
  username :: string
  password :: string

type_synonym vault = "(string \<times> credential) list"

text \<open>
  The library functions. \<open>str_lower\<close> is \<^verbatim>\<open>str.lower\<close>, which lowercases the cased
  characters of the whole of Unicode; \<open>fernet_valid_key\<close> tells whether \<^verbatim>\<open>Fernet(key)\<close>
  accepts the key (it raises \<^verbatim>\<open>ValueError\<close> on a key that is not 32 bytes in url-safe
  base64). \<open>sha256_hexdigest\<close> is
  \<^verbatim>\<open>hashlib.sha256(p.encode()).hexdigest()\<close>; \<open>generate_key\<close> is \<^verbatim>\<open>Fernet.generate_key()\<close>
  and \<open>fernet_encrypt\<close> is \<^verbatim>\<open>Fernet(key).encrypt(data)\<close>, each with the random draw it
  consumes as an argument; \<open>fernet_decrypt\<close> is \<^verbatim>\<open>Fernet(key).decrypt(token)\<close>, \<open>None\<close>
  when it raises \<^verbatim>\<open>InvalidToken\<close>; \<open>json_dumps\<close> is
  \<^verbatim>\<open>json.dumps(d, indent=2).encode()\<close> and \<open>json_loads\<close> is \<^verbatim>\<open>json.loads(b.decode())\<close>,
  \<open>None\<close> when decoding or parsing raises.
\<close>

record lib =
  str_lower :: "string \<Rightarrow> string"
  sha256_hexdigest :: "string \<Rightarrow> string"
  generate_key :: "nat \<Rightarrow> bytes"
  fernet_valid_key :: "bytes \<Rightarrow> bool"
  fernet_encrypt :: "bytes \<Rightarrow> nat \<Rightarrow> bytes \<Rightarrow> bytes"
  fernet_decrypt :: "bytes \<Rightarrow> bytes \<Rightarrow> bytes option"
  json_dumps :: "vault \<Rightarrow> bytes"
  json_loads :: "bytes \<Rightarrow> vault option"

datatype cipher = Fernet bytes

text \<open>
  The exceptions that the two \<^verbatim>\<open>try\<close> blocks of the class catch and print;
  \<open>ValueError\<close> is also what \<^verbatim>\<open>Fernet(key)\<close> raises on a key it does not accept.
\<close>

datatype exn = AttributeError | InvalidToken | ValueError | OSError

text \<open>The lines the class prints, one constructor for each \<^verbatim>\<open>print\<close> call.\<close>

datatype message =
    IncorrectMasterPassword
  | FirstTimeSetup
  | PasswordsDontMatch
  | MasterPasswordCreated
  | ErrorLoadingPasswords exn
  | ErrorSavingPasswords exn
  | GeneratedPassword string
  | PasswordSavedFor string
  | PasswordDeletedFor string
  | NoPasswordFoundFor string
  | FoundMatches nat
  | Match string string
  | NoMatchesFound
  | ServiceNotFound string
  | PasswordUpdatedFor string

text \<open>
  The state: the attributes \<open>key\<close>, \<open>cipher\<close> and \<open>passwords\<close> of the object, and its
  environment. The three paths of the object are constants, so \<open>key_file\<close>, \<open>data_file\<close>
  and \<open>master_hash_file\<close> hold the contents of the files at these paths (\<open>None\<close>: the
  file does not exist). \<open>data_file_writable\<close> tells whether opening the data file for
  writing succeeds. The source handles exceptions in \<^verbatim>\<open>_load_passwords\<close> and
  \<^verbatim>\<open>_save_passwords\<close> only; the model lets the library calls of these two functions
  fail, lets \<^verbatim>\<open>Fernet(self.key)\<close> refuse the key, and takes every other file operation to
  succeed and the data file to be readable when it exists.
\<close>

record state =
  key :: "bytes option"
  cipher :: "cipher option"
  passwords :: vault
  key_file :: "bytes option"
  data_file :: "bytes option"
  master_hash_file :: "string option"
  data_file_writable :: bool
  stdout :: "message list"
  entropy :: rand

definition print_msg :: "message \<Rightarrow> state \<Rightarrow> state" where
  "print_msg m s = s\<lparr>stdout := stdout s @ [m]\<rparr>"

definition print_all :: "message list \<Rightarrow> state \<Rightarrow> state" where
  "print_all ms s = s\<lparr>stdout := stdout s @ ms\<rparr>"

text \<open>One draw of \<^verbatim>\<open>os.urandom\<close>.\<close>

definition urandom :: "state \<Rightarrow> nat \<times> state" where
  "urandom s = (entropy s 0, s\<lparr>entropy := \<lambda>i. entropy s (Suc i)\<rparr>)"

text \<open>\<^verbatim>\<open>__init__\<close>, in an environment with the given files.\<close>

definition init ::
  "bytes option \<Rightarrow> bytes option \<Rightarrow> string option \<Rightarrow> bool \<Rightarrow> rand \<Rightarrow> state" where
  "init kf df mf w rs =
     \<lparr>key = None, cipher = None, passwords = [],
      key_file = kf, data_file = df, master_hash_file = mf,
      data_file_writable = w, stdout = [], entropy = rs\<rparr>"

subsection \<open>Master password, key and persistence\<close>

definition hash_password :: "lib \<Rightarrow> string \<Rightarrow> string" where
  "hash_password L pw = sha256_hexdigest L pw"

definition save_master_hash :: "lib \<Rightarrow> string \<Rightarrow> state \<Rightarrow> state" where
  "save_master_hash L pw s = s\<lparr>master_hash_file := Some (hash_password L pw)\<rparr>"

definition load_master_hash :: "state \<Rightarrow> string option" where
  "load_master_hash s = master_hash_file s"

text \<open>
  \<^verbatim>\<open>_initialize_encryption\<close> reads the key file, or generates a key and writes it, and
  then calls \<^verbatim>\<open>Fernet(self.key)\<close> outside any \<^verbatim>\<open>try\<close>: on a key that the library does
  not accept the call raises \<^verbatim>\<open>ValueError\<close>, with \<open>key\<close> (and a new key file) already set
  and \<open>cipher\<close> as it was. The result is the exception or nothing, with the state at that
  point.
\<close>

definition initialize_encryption :: "lib \<Rightarrow> state \<Rightarrow> (exn + unit) \<times> state" where
  "initialize_encryption L s =
     (let (k, s1) =
        (case key_file s of
           Some k \<Rightarrow> (k, s\<lparr>key := Some k\<rparr>)
         | None \<Rightarrow>
             (case urandom s of
                (r, s0) \<Rightarrow>
                  (generate_key L r,
                   s0\<lparr>key := Some (generate_key L r), key_file := Some (generate_key L r)\<rparr>)))
      in if fernet_valid_key L k
         then (Inr (), s1\<lparr>cipher := Some (Fernet k)\<rparr>)
         else (Inl ValueError, s1))"

text \<open>
  \<^verbatim>\<open>_load_passwords\<close> returns the dictionary; every exception of its \<^verbatim>\<open>try\<close> block is
  printed and answered with the empty dictionary. With \<open>cipher = None\<close> the call
  \<^verbatim>\<open>self.cipher.decrypt\<close> raises \<^verbatim>\<open>AttributeError\<close>.
\<close>

definition load_passwords :: "lib \<Rightarrow> state \<Rightarrow> vault \<times> state" where
  "load_passwords L s =
     (case data_file s of
        None \<Rightarrow> ([], s)
      | Some encrypted_data \<Rightarrow>
          (case cipher s of
             None \<Rightarrow> ([], print_msg (ErrorLoadingPasswords AttributeError) s)
           | Some (Fernet k) \<Rightarrow>
               (case fernet_decrypt L k encrypted_data of
                  None \<Rightarrow> ([], print_msg (ErrorLoadingPasswords InvalidToken) s)
                | Some decrypted_data \<Rightarrow>
                    (case json_loads L decrypted_data of
                       None \<Rightarrow> ([], print_msg (ErrorLoadingPasswords ValueError) s)
                     | Some d \<Rightarrow> (d, s)))))"

text \<open>
  \<^verbatim>\<open>_save_passwords\<close> returns nothing; every exception of its \<^verbatim>\<open>try\<close> block is printed
  and the function returns normally. A failed \<^verbatim>\<open>open\<close> leaves the file as it was.
\<close>

definition save_passwords :: "lib \<Rightarrow> state \<Rightarrow> state" where
  "save_passwords L s =
     (let data = json_dumps L (passwords s)
      in case cipher s of
           None \<Rightarrow> print_msg (ErrorSavingPasswords AttributeError) s
         | Some (Fernet k) \<Rightarrow>
             (case urandom s of
                (r, s1) \<Rightarrow>
                  (let encrypted_data = fernet_encrypt L k r data
                   in if data_file_writable s1
                      then s1\<lparr>data_file := Some encrypted_data\<rparr>
                      else print_msg (ErrorSavingPasswords OSError) s1)))"

text \<open>
  \<^verbatim>\<open>setup_master_password\<close>; \<open>master\<close> and \<open>confirm\<close> are what \<^verbatim>\<open>getpass\<close> returns (the
  second prompt is shown on first-time setup only). The result is \<open>Inr\<close> of the returned
  boolean, or \<open>Inl\<close> of the exception that \<^verbatim>\<open>_initialize_encryption\<close> raises and that
  nothing catches.
\<close>

definition setup_master_password ::
  "lib \<Rightarrow> string \<Rightarrow> string \<Rightarrow> state \<Rightarrow> (exn + bool) \<times> state" where
  "setup_master_password L master confirm s =
     (let verified =
        (case load_master_hash s of
           Some stored_hash \<Rightarrow>
             if hash_password L master \<noteq> stored_hash
             then (False, print_msg IncorrectMasterPassword s)
             else (True, s)
         | None \<Rightarrow>
             (let s1 = print_msg FirstTimeSetup s
              in if master \<noteq> confirm
                 then (False, print_msg PasswordsDontMatch s1)
                 else (True, print_msg MasterPasswordCreated (save_master_hash L master s1))))
      in case verified of
           (False, s2) \<Rightarrow> (Inr False, s2)
         | (True, s2) \<Rightarrow>
             (case initialize_encryption L s2 of
                (Inl e, s3) \<Rightarrow> (Inl e, s3)
              | (Inr u, s3) \<Rightarrow>
                  (case load_passwords L s3 of
                     (d, s4) \<Rightarrow> (Inr True, s4\<lparr>passwords := d\<rparr>))))"

subsection \<open>The operations on the vault\<close>

text \<open>The password of a call: the given one, or a generated one, which is printed.\<close>

definition password_or_generated :: "string option \<Rightarrow> state \<Rightarrow> string \<times> state" where
  "password_or_generated pw s =
     (case pw of
        Some p \<Rightarrow> (p, s)
      | None \<Rightarrow>
          (case generate_password 16 True True (entropy s) of
             (p, rs) \<Rightarrow> (p, print_msg (GeneratedPassword p) (s\<lparr>entropy := rs\<rparr>))))"

definition add_password :: "lib \<Rightarrow> string \<Rightarrow> string \<Rightarrow> string option \<Rightarrow> state \<Rightarrow> state" where
  "add_password L svc user pw s =
     (case password_or_generated pw s of
        (p, s1) \<Rightarrow>
          (let s2 = s1\<lparr>passwords :=
                      AList.update (str_lower L svc)
                        \<lparr>service = svc, username = user, password = p\<rparr> (passwords s1)\<rparr>;
               s3 = save_passwords L s2
           in print_msg (PasswordSavedFor svc) s3))"

definition get_password :: "lib \<Rightarrow> string \<Rightarrow> state \<Rightarrow> credential option" where
  "get_password L svc s = (let service_key = str_lower L svc in map_of (passwords s) service_key)"

definition delete_password :: "lib \<Rightarrow> string \<Rightarrow> state \<Rightarrow> state" where
  "delete_password L svc s =
     (let service_key = str_lower L svc
      in case map_of (passwords s) service_key of
           Some r \<Rightarrow>
             (let service_name = service r;
                  s1 = s\<lparr>passwords := AList.delete service_key (passwords s)\<rparr>;
                  s2 = save_passwords L s1
              in print_msg (PasswordDeletedFor service_name) s2)
         | None \<Rightarrow> print_msg (NoPasswordFoundFor svc) s)"

text \<open>
  \<^verbatim>\<open>search\<close> returns the dictionary of the matching entries; \<^verbatim>\<open>a in b\<close> on strings is
  \<open>sublist a b\<close>, the contiguous sublist relation.
\<close>

definition search :: "lib \<Rightarrow> string \<Rightarrow> state \<Rightarrow> vault \<times> state" where
  "search L query s =
     (let query_lower = str_lower L query;
          results = filter (\<lambda>(k, v). sublist query_lower k \<or>
                                      sublist query_lower (str_lower L (username v))) (passwords s)
      in if results \<noteq> []
         then (results,
               print_all (FoundMatches (length results) #
                          map (\<lambda>(k, v). Match (service v) (username v)) results) s)
         else (results, print_msg NoMatchesFound s))"

definition update_password :: "lib \<Rightarrow> string \<Rightarrow> string option \<Rightarrow> state \<Rightarrow> state" where
  "update_password L svc new_password s =
     (let service_key = str_lower L svc
      in case map_of (passwords s) service_key of
           None \<Rightarrow> print_msg (ServiceNotFound svc) s
         | Some r \<Rightarrow>
             (case password_or_generated new_password s of
                (p, s1) \<Rightarrow>
                  (let s2 = s1\<lparr>passwords :=
                              AList.update service_key (r\<lparr>password := p\<rparr>) (passwords s1)\<rparr>;
                       s3 = save_passwords L s2
                   in print_msg (PasswordUpdatedFor (service r)) s3)))"

subsection \<open>The invariant of the vault, the accepted key and an instance of the libraries\<close>

text \<open>
  The keys of the vault are pairwise different, and every record is stored under the
  lowercased form of its own service name, lowercased as the library does.
\<close>

definition vault_inv :: "lib \<Rightarrow> vault \<Rightarrow> bool" where
  "vault_inv L v = (distinct (map fst v) \<and> (\<forall>(k, r) \<in> set v. k = str_lower L (service r)))"

text \<open>
  The key that \<^verbatim>\<open>_initialize_encryption\<close> ends up with: the contents of the key file, or
  the key generated from the next random draw. \<open>key_accepted\<close> tells whether the library
  accepts it.
\<close>

definition key_accepted :: "lib \<Rightarrow> state \<Rightarrow> bool" where
  "key_accepted L s =
     fernet_valid_key L
       (case key_file s of Some k \<Rightarrow> k | None \<Rightarrow> generate_key L (entropy s 0))"

text \<open>
  An instance of the library record on which the model can be evaluated. Its \<open>str_lower\<close>
  maps the letters A to Z to a to z and leaves every other character as it is, which is
  what \<^verbatim>\<open>str.lower\<close> does on ASCII text; the closed examples below use ASCII text only.
  The digest marks its argument, a key is accepted when it has 44 characters, the cipher
  puts the key in front of the plaintext and decryption accepts exactly the tokens that
  start with the key.
\<close>

definition ascii_lower_char :: "char \<Rightarrow> char" where
  "ascii_lower_char c =
     (let n = (of_char c :: nat)
      in if 65 \<le> n \<and> n \<le> 90 then char_of (n + 32) else c)"

definition ascii_lower :: "string \<Rightarrow> string" where
  "ascii_lower s = map ascii_lower_char s"

definition demo_key :: bytes where
  "demo_key = ''AAAAAAAAAAAAAAAAAAAAAAAAAAAAAAAAAAAAAAAAAAA=''"

definition demo_lib :: lib where
  "demo_lib =
     \<lparr>str_lower = ascii_lower,
      sha256_hexdigest = (\<lambda>p. ''#'' @ p),
      generate_key = (\<lambda>r. demo_key),
      fernet_valid_key = (\<lambda>k. length k = 44),
      fernet_encrypt = (\<lambda>k r d. k @ d),
      fernet_decrypt = (\<lambda>k t. if take (length k) t = k then Some (drop (length k) t) else None),
      json_dumps = (\<lambda>d. concat (map (\<lambda>(k, v). k @ '':'' @ username v @ '':'' @ password v @ '';'') d)),
      json_loads = (\<lambda>b. if b = [] then Some [] else None)\<rparr>"

text \<open>
  An unlocked state for the closed examples: the key \<open>demo_key\<close> is loaded, and the
  vault, the contents of the data file and its writability are given.
\<close>

definition demo_state :: "vault \<Rightarrow> bytes option \<Rightarrow> bool \<Rightarrow> state" where
  "demo_state v df w =
     \<lparr>key = Some demo_key, cipher = Some (Fernet demo_key), passwords = v,
      key_file = Some demo_key, data_file = df, master_hash_file = Some ''#master'',
      data_file_writable = w, stdout = [], entropy = (\<lambda>_. 0)\<rparr>"

text \<open>A vault of four records for the closed examples of \<open>search\<close>.\<close>

definition demo_vault :: vault where
  "demo_vault =
     [(''github'', \<lparr>service = ''GitHub'', username = ''alice'', password = ''pw1''\<rparr>),
      (''gitlab'', \<lparr>service = ''Gitlab'', username = ''bob'', password = ''pw2''\<rparr>),
      (''mail'', \<lparr>service = ''Mail'', username = ''Brigit'', password = ''pw3''\<rparr>),
      (''bank'', \<lparr>service = ''Bank'', username = ''carol'', password = ''pw4''\<rparr>)]"

section \<open>Properties\<close>

subsection \<open>Random draws, shuffling and filling\<close>

lemma choice_mem: "seq \<noteq> [] \<Longrightarrow> fst (choice seq rs) \<in> set seq"
  by (simp add: choice_def randbelow_def)

lemma shuffle_loop_mset:
  "i < length x \<Longrightarrow> mset (fst (shuffle_loop i x rs)) = mset x"
proof (induction i arbitrary: x rs)
  case 0
  then show ?case by simp
next
  case (Suc i)
  let ?j = "rs 0 mod (Suc i + 1)"
  have j: "?j < length x" using Suc.prems
    by (metis Suc_eq_plus1 Suc_lessI less_Suc_eq mod_less_divisor not_less_eq zero_less_Suc less_trans)
  have "mset (x[Suc i := x ! ?j, ?j := x ! Suc i]) = mset x"
    using mset_swap [OF j Suc.prems] by simp
  moreover have "i < length (x[Suc i := x ! ?j, ?j := x ! Suc i])"
    using Suc.prems by simp
  ultimately show ?case
    using Suc.IH [of "x[Suc i := x ! ?j, ?j := x ! Suc i]" "\<lambda>i. rs (Suc i)"]
    by (simp add: randbelow_def)
qed

lemma shuffle_mset: "mset (fst (shuffle x rs)) = mset x"
proof (cases x)
  case Nil
  then show ?thesis by (simp add: shuffle_def)
next
  case (Cons a as)
  then show ?thesis by (simp add: shuffle_def shuffle_loop_mset)
qed

lemma shuffle_set: "set (fst (shuffle x rs)) = set x"
  by (metis shuffle_mset set_mset_mset)

lemma shuffle_length: "length (fst (shuffle x rs)) = length x"
  by (metis shuffle_mset size_mset)

lemma fill_length: "length (fst (fill n chars pw rs)) = length pw + n"
  by (induction n arbitrary: pw rs) (simp_all split: prod.splits)

lemma fill_keeps: "set pw \<subseteq> set (fst (fill n chars pw rs))"
proof (induction n arbitrary: pw rs)
  case 0
  then show ?case by simp
next
  case (Suc n)
  obtain c rs' where c: "choice chars rs = (c, rs')" by (cases "choice chars rs")
  show ?case using Suc.IH [of "pw @ [c]" rs'] c by simp
qed

lemma fill_within:
  "chars \<noteq> [] \<Longrightarrow> set (fst (fill n chars pw rs)) \<subseteq> set pw \<union> set chars"
proof (induction n arbitrary: pw rs)
  case 0
  then show ?case by simp
next
  case (Suc n)
  obtain c rs' where c: "choice chars rs = (c, rs')" by (cases "choice chars rs")
  have "c \<in> set chars" using choice_mem [OF Suc.prems, of rs] c by simp
  then show ?case using Suc.IH [OF Suc.prems, of "pw @ [c]" rs'] c by auto
qed

lemma class_nonempty:
  "digits \<noteq> []" "punctuation \<noteq> []" "ascii_lowercase \<noteq> []" "ascii_uppercase \<noteq> []"
  by (simp_all add: digits_def punctuation_def ascii_lowercase_def ascii_uppercase_def)

lemma universe_nonempty: "universe us un \<noteq> []"
  by (simp add: universe_def ascii_letters_def class_nonempty)

lemma mandatory_length: "length (fst (mandatory us un rs)) = mandatory_count us un"
  by (simp add: mandatory_def mandatory_count_def split: prod.splits)

lemma mandatory_lower: "\<exists>c \<in> set (fst (mandatory us un rs)). c \<in> set ascii_lowercase"
proof -
  have "\<And>r. fst (choice ascii_lowercase r) \<in> set ascii_lowercase"
    by (rule choice_mem) (rule class_nonempty)
  then show ?thesis
    by (auto simp: mandatory_def split: prod.splits) (metis fst_conv)+
qed


lemma mandatory_upper: "\<exists>c \<in> set (fst (mandatory us un rs)). c \<in> set ascii_uppercase"
proof -
  have "\<And>r. fst (choice ascii_uppercase r) \<in> set ascii_uppercase"
    by (rule choice_mem) (rule class_nonempty)
  then show ?thesis
    by (auto simp: mandatory_def split: prod.splits) (metis fst_conv)+
qed

lemma mandatory_digit: "un \<Longrightarrow> \<exists>c \<in> set (fst (mandatory us un rs)). c \<in> set digits"
proof -
  have "\<And>r. fst (choice digits r) \<in> set digits"
    by (rule choice_mem) (rule class_nonempty)
  then show ?thesis if un
    using that by (auto simp: mandatory_def split: prod.splits) (metis fst_conv)+
qed

lemma mandatory_symbol: "us \<Longrightarrow> \<exists>c \<in> set (fst (mandatory us un rs)). c \<in> set punctuation"
proof -
  have "\<And>r. fst (choice punctuation r) \<in> set punctuation"
    by (rule choice_mem) (rule class_nonempty)
  then show ?thesis if us
    using that by (auto simp: mandatory_def split: prod.splits) (metis fst_conv)+
qed

lemma mandatory_within:
  "set (fst (mandatory us un rs)) \<subseteq> set (universe us un)"
proof -
  have h: "\<And>r. fst (choice digits r) \<in> set digits"
    "\<And>r. fst (choice punctuation r) \<in> set punctuation"
    "\<And>r. fst (choice ascii_lowercase r) \<in> set ascii_lowercase"
    "\<And>r. fst (choice ascii_uppercase r) \<in> set ascii_uppercase"
    by (rule choice_mem, rule class_nonempty)+
  show ?thesis
    using h by (auto simp: mandatory_def universe_def ascii_letters_def split: prod.splits)
      (metis fst_conv)+
qed

lemma generate_password_unfold:
  "fst (generate_password len us un rs) =
     fst (shuffle
       (fst (fill (nat (len - int (length (fst (mandatory us un rs))))) (universe us un)
               (fst (mandatory us un rs)) (snd (mandatory us un rs))))
       (snd (fill (nat (len - int (length (fst (mandatory us un rs))))) (universe us un)
               (fst (mandatory us un rs)) (snd (mandatory us un rs)))))"
  by (simp add: generate_password_def split: prod.splits)

lemma generate_password_set:
  "set (fst (generate_password len us un rs)) =
     set (fst (fill (nat (len - int (mandatory_count us un))) (universe us un)
                 (fst (mandatory us un rs)) (snd (mandatory us un rs))))"
  by (simp add: generate_password_unfold shuffle_set mandatory_length)

lemma generate_password_length:
  "length (fst (generate_password len us un rs)) =
     mandatory_count us un + nat (len - int (mandatory_count us un))"
  by (simp add: generate_password_unfold shuffle_length fill_length mandatory_length)

lemma generate_password_has:
  "\<exists>c \<in> set (fst (mandatory us un rs)). c \<in> set cls \<Longrightarrow>
   \<exists>c \<in> set (fst (generate_password len us un rs)). c \<in> set cls"
  using fill_keeps [of "fst (mandatory us un rs)"] generate_password_set by blast

lemma generate_password_within:
  "set (fst (generate_password len us un rs)) \<subseteq> set (universe us un)"
  using fill_within [OF universe_nonempty] mandatory_within generate_password_set by blast

lemma classes_disjoint:
  "set digits \<inter> set ascii_letters = {}"
  "set punctuation \<inter> set ascii_letters = {}"
  "set punctuation \<inter> set digits = {}"
  by (simp_all add: digits_def punctuation_def ascii_letters_def ascii_lowercase_def
        ascii_uppercase_def)

subsection \<open>Saving and the three mutating operations\<close>

lemma save_passwords_fails:
  "cipher s = None \<or> \<not> data_file_writable s \<Longrightarrow>
   data_file (save_passwords L s) = data_file s \<and>
   passwords (save_passwords L s) = passwords s \<and>
   stdout (save_passwords L s) =
     stdout s @ [ErrorSavingPasswords (if cipher s = None then AttributeError else OSError)]"
  by (auto simp: save_passwords_def print_msg_def urandom_def Let_def
        split: option.splits cipher.splits)

lemma save_passwords_ok:
  "cipher s = Some (Fernet k) \<Longrightarrow> data_file_writable s \<Longrightarrow>
   save_passwords L s =
     s\<lparr>entropy := \<lambda>i. entropy s (Suc i),
       data_file := Some (fernet_encrypt L k (entropy s 0) (json_dumps L (passwords s)))\<rparr>"
  by (simp add: save_passwords_def urandom_def Let_def)

lemma save_passwords_keeps:
  "passwords (save_passwords L s) = passwords s"
  "cipher (save_passwords L s) = cipher s"
  "data_file_writable (save_passwords L s) = data_file_writable s"
  by (simp_all add: save_passwords_def print_msg_def urandom_def Let_def
        split: option.splits cipher.splits)

lemma password_or_generated_keeps:
  "passwords (snd (password_or_generated pw s)) = passwords s"
  "cipher (snd (password_or_generated pw s)) = cipher s"
  "data_file (snd (password_or_generated pw s)) = data_file s"
  "data_file_writable (snd (password_or_generated pw s)) = data_file_writable s"
  by (simp_all add: password_or_generated_def print_msg_def split: option.splits prod.splits)

lemma add_password_passwords:
  "passwords (add_password L svc user pw s) =
     AList.update (str_lower L svc)
       \<lparr>service = svc, username = user, password = fst (password_or_generated pw s)\<rparr>
       (passwords s)"
proof -
  obtain p s1 where e: "password_or_generated pw s = (p, s1)"
    by (cases "password_or_generated pw s")
  have "passwords s1 = passwords s"
    using password_or_generated_keeps(1) [of pw s] e by simp
  then show ?thesis
    using e by (simp add: add_password_def print_msg_def save_passwords_keeps Let_def)
qed

lemma delete_password_passwords:
  "passwords (delete_password L svc s) = AList.delete (str_lower L svc) (passwords s)"
proof (cases "map_of (passwords s) (str_lower L svc)")
  case None
  then have "str_lower L svc \<notin> fst ` set (passwords s)" by (simp add: map_of_eq_None_iff)
  then show ?thesis using None
    by (simp add: delete_password_def print_msg_def)
next
  case (Some r)
  then show ?thesis
    by (simp add: delete_password_def print_msg_def save_passwords_keeps Let_def)
qed

lemma update_password_passwords:
  "passwords (update_password L svc np s) =
     (case map_of (passwords s) (str_lower L svc) of
        None \<Rightarrow> passwords s
      | Some r \<Rightarrow>
          AList.update (str_lower L svc) (r\<lparr>password := fst (password_or_generated np s)\<rparr>)
            (passwords s))"
proof -
  obtain p s1 where e: "password_or_generated np s = (p, s1)"
    by (cases "password_or_generated np s")
  have "passwords s1 = passwords s"
    using password_or_generated_keeps(1) [of np s] e by simp
  then show ?thesis
    using e by (simp add: update_password_def print_msg_def save_passwords_keeps Let_def
                  split: option.splits)
qed

lemma set_update_subset: "set (AList.update k v al) \<subseteq> insert (k, v) (set al)"
  by (induction al) auto

lemma vault_inv_update:
  "vault_inv L v \<Longrightarrow> k = str_lower L (service r) \<Longrightarrow> vault_inv L (AList.update k r v)"
  unfolding vault_inv_def using set_update_subset [of k r v]
  by (auto simp: distinct_update)

lemma vault_inv_delete: "vault_inv L v \<Longrightarrow> vault_inv L (AList.delete k v)"
proof -
  assume v: "vault_inv L v"
  have "distinct (map fst (AList.delete k v))"
    using v by (simp add: vault_inv_def distinct_delete)
  moreover have "set (AList.delete k v) \<subseteq> set v"
    by (auto simp: AList.delete_eq)
  ultimately show ?thesis
    using v unfolding vault_inv_def by blast
qed

lemma filter_key_absent: "x \<notin> fst ` set v \<Longrightarrow> filter (\<lambda>e. fst e = x) v = []"
  by (induction v) auto

lemma distinct_filter_key:
  "distinct (map fst v) \<Longrightarrow> length (filter (\<lambda>e. fst e = x) v) \<le> Suc 0"
proof (induction v)
  case Nil
  then show ?case by simp
next
  case (Cons e v)
  show ?case
  proof (cases "fst e = x")
    case True
    then have "filter (\<lambda>e. fst e = x) v = []"
      using Cons.prems by (simp add: filter_key_absent)
    then show ?thesis using True by simp
  next
    case False
    then show ?thesis using Cons by simp
  qed
qed

lemma filter_key_update:
  "distinct (map fst v) \<Longrightarrow> filter (\<lambda>e. fst e = k) (AList.update k r v) = [(k, r)]"
proof (induction v)
  case Nil
  then show ?case by simp
next
  case (Cons e v)
  show ?case
  proof (cases "fst e = k")
    case True
    then have "filter (\<lambda>e. fst e = k) v = []"
      using Cons.prems by (simp add: filter_key_absent)
    then show ?thesis using True by simp
  next
    case False
    then show ?thesis using Cons by simp
  qed
qed

subsection \<open>The password generator\<close>

text \<open>
  Claim C6. For every length that is at least the number of mandatory character
  classes and for every sequence of random draws, \<open>generate_password\<close> returns a string
  of exactly that length with at least one lowercase letter, one uppercase letter, one
  digit when \<open>use_numbers\<close> holds and one symbol when \<open>use_symbols\<close> holds.
\<close>

theorem generate_password_composition:
  assumes "int (mandatory_count use_symbols use_numbers) \<le> len"
  shows "int (length (fst (generate_password len use_symbols use_numbers rs))) = len \<and>
         (\<exists>c \<in> set (fst (generate_password len use_symbols use_numbers rs)).
            c \<in> set ascii_lowercase) \<and>
         (\<exists>c \<in> set (fst (generate_password len use_symbols use_numbers rs)).
            c \<in> set ascii_uppercase) \<and>
         (use_numbers \<longrightarrow>
            (\<exists>c \<in> set (fst (generate_password len use_symbols use_numbers rs)).
               c \<in> set digits)) \<and>
         (use_symbols \<longrightarrow>
            (\<exists>c \<in> set (fst (generate_password len use_symbols use_numbers rs)).
               c \<in> set punctuation))"
proof -
  have "int (length (fst (generate_password len use_symbols use_numbers rs))) = len"
    using assms by (simp add: generate_password_length)
  moreover have "\<exists>c \<in> set (fst (generate_password len use_symbols use_numbers rs)).
      c \<in> set ascii_lowercase"
    by (rule generate_password_has) (rule mandatory_lower)
  moreover have "\<exists>c \<in> set (fst (generate_password len use_symbols use_numbers rs)).
      c \<in> set ascii_uppercase"
    by (rule generate_password_has) (rule mandatory_upper)
  moreover have "\<exists>c \<in> set (fst (generate_password len use_symbols use_numbers rs)).
      c \<in> set digits" if use_numbers
    by (rule generate_password_has) (rule mandatory_digit [OF that])
  moreover have "\<exists>c \<in> set (fst (generate_password len use_symbols use_numbers rs)).
      c \<in> set punctuation" if use_symbols
    by (rule generate_password_has) (rule mandatory_symbol [OF that])
  ultimately show ?thesis by blast
qed

text \<open>
  The instance of C6 for the length 12 with both classes enabled.
\<close>

theorem generate_password_composition_witness:
  "int (mandatory_count True True) \<le> 12 \<and>
   int (length (fst (generate_password 12 True True (\<lambda>i. 7 * i + 3)))) = 12 \<and>
   (\<exists>c \<in> set (fst (generate_password 12 True True (\<lambda>i. 7 * i + 3))). c \<in> set ascii_lowercase) \<and>
   (\<exists>c \<in> set (fst (generate_password 12 True True (\<lambda>i. 7 * i + 3))). c \<in> set ascii_uppercase) \<and>
   (\<exists>c \<in> set (fst (generate_password 12 True True (\<lambda>i. 7 * i + 3))). c \<in> set digits) \<and>
   (\<exists>c \<in> set (fst (generate_password 12 True True (\<lambda>i. 7 * i + 3))). c \<in> set punctuation)"
proof -
  have h: "int (mandatory_count True True) \<le> 12" by (simp add: mandatory_count_def)
  show ?thesis
    using h generate_password_composition [OF h, of "\<lambda>i. 7 * i + 3"] by simp
qed

text \<open>
  Claim C7 says that a length below the number of mandatory classes is refused with
  \<^verbatim>\<open>InvalidLength\<close>. The source has no such check: asked for 3 characters with
  symbols and numbers enabled, it returns a string of 4 characters.
\<close>

theorem generate_password_short_length_counterexample:
  "(3 :: int) < int (mandatory_count True True) \<and>
   fst (generate_password 3 True True (\<lambda>_. 0)) = ''!aA0''"
proof -
  have "fst (generate_password 3 True True (\<lambda>_. 0)) = ''!aA0''" by code_simp
  then show ?thesis by (simp add: mandatory_count_def)
qed

text \<open>
  Claim C7, amended. For every length below the number of mandatory classes,
  \<open>generate_password\<close> returns a string that has exactly one character for each of
  these classes: the fill loop runs over an empty range and nothing is refused.
\<close>

theorem generate_password_short_length:
  assumes "len < int (mandatory_count use_symbols use_numbers)"
  shows "length (fst (generate_password len use_symbols use_numbers rs)) =
           mandatory_count use_symbols use_numbers \<and>
         (\<exists>c \<in> set (fst (generate_password len use_symbols use_numbers rs)).
            c \<in> set ascii_lowercase) \<and>
         (\<exists>c \<in> set (fst (generate_password len use_symbols use_numbers rs)).
            c \<in> set ascii_uppercase) \<and>
         (use_numbers \<longrightarrow>
            (\<exists>c \<in> set (fst (generate_password len use_symbols use_numbers rs)).
               c \<in> set digits)) \<and>
         (use_symbols \<longrightarrow>
            (\<exists>c \<in> set (fst (generate_password len use_symbols use_numbers rs)).
               c \<in> set punctuation))"
proof -
  have "length (fst (generate_password len use_symbols use_numbers rs)) =
      mandatory_count use_symbols use_numbers"
    using assms by (simp add: generate_password_length)
  moreover have "\<exists>c \<in> set (fst (generate_password len use_symbols use_numbers rs)).
      c \<in> set ascii_lowercase"
    by (rule generate_password_has) (rule mandatory_lower)
  moreover have "\<exists>c \<in> set (fst (generate_password len use_symbols use_numbers rs)).
      c \<in> set ascii_uppercase"
    by (rule generate_password_has) (rule mandatory_upper)
  moreover have "\<exists>c \<in> set (fst (generate_password len use_symbols use_numbers rs)).
      c \<in> set digits" if use_numbers
    by (rule generate_password_has) (rule mandatory_digit [OF that])
  moreover have "\<exists>c \<in> set (fst (generate_password len use_symbols use_numbers rs)).
      c \<in> set punctuation" if use_symbols
    by (rule generate_password_has) (rule mandatory_symbol [OF that])
  ultimately show ?thesis by blast
qed

text \<open>
  The instance of the amended C7 for the length 3 with both classes enabled.
\<close>

theorem generate_password_short_length_witness:
  "(3 :: int) < int (mandatory_count True True) \<and>
   length (fst (generate_password 3 True True (\<lambda>_. 0))) = 4 \<and>
   (\<exists>c \<in> set (fst (generate_password 3 True True (\<lambda>_. 0))). c \<in> set ascii_lowercase) \<and>
   (\<exists>c \<in> set (fst (generate_password 3 True True (\<lambda>_. 0))). c \<in> set ascii_uppercase) \<and>
   (\<exists>c \<in> set (fst (generate_password 3 True True (\<lambda>_. 0))). c \<in> set digits) \<and>
   (\<exists>c \<in> set (fst (generate_password 3 True True (\<lambda>_. 0))). c \<in> set punctuation)"
proof -
  have h: "(3 :: int) < int (mandatory_count True True)" by (simp add: mandatory_count_def)
  show ?thesis
    using h generate_password_short_length [OF h, of "\<lambda>_. 0"]
    by (simp add: mandatory_count_def)
qed

text \<open>
  Claim C10. Every character of the generated string belongs to the enabled universe:
  it is an ASCII letter, or a digit when \<open>use_numbers\<close> holds, or a punctuation symbol
  when \<open>use_symbols\<close> holds; the classes being disjoint, no digit appears when
  \<open>use_numbers\<close> is off and no symbol when \<open>use_symbols\<close> is off.
\<close>

theorem generate_password_universe:
  "(\<forall>c \<in> set (fst (generate_password len use_symbols use_numbers rs)).
      c \<in> set ascii_letters \<or> (use_numbers \<and> c \<in> set digits) \<or>
      (use_symbols \<and> c \<in> set punctuation)) \<and>
   (\<not> use_numbers \<longrightarrow>
      set (fst (generate_password len use_symbols use_numbers rs)) \<inter> set digits = {}) \<and>
   (\<not> use_symbols \<longrightarrow>
      set (fst (generate_password len use_symbols use_numbers rs)) \<inter> set punctuation = {})"
proof -
  have w: "set (fst (generate_password len use_symbols use_numbers rs)) \<subseteq>
      set (universe use_symbols use_numbers)"
    by (rule generate_password_within)
  have 1: "\<forall>c \<in> set (fst (generate_password len use_symbols use_numbers rs)).
      c \<in> set ascii_letters \<or> (use_numbers \<and> c \<in> set digits) \<or>
      (use_symbols \<and> c \<in> set punctuation)"
    using w by (auto simp: universe_def split: if_splits)
  have 2: "set (fst (generate_password len use_symbols use_numbers rs)) \<inter> set digits = {}"
    if "\<not> use_numbers"
    using w that classes_disjoint by (auto simp: universe_def split: if_splits)
  have 3: "set (fst (generate_password len use_symbols use_numbers rs)) \<inter> set punctuation = {}"
    if "\<not> use_symbols"
    using w that classes_disjoint by (auto simp: universe_def split: if_splits)
  show ?thesis using 1 2 3 by blast
qed

text \<open>
  The instance of C10 for a request of two characters with both classes disabled.
\<close>

theorem generate_password_universe_witness:
  "fst (generate_password 2 False False (\<lambda>_. 0)) = ''Aa'' \<and>
   CHR ''A'' \<in> set ascii_letters \<and> CHR ''a'' \<in> set ascii_letters \<and>
   set ''Aa'' \<inter> set digits = {} \<and> set ''Aa'' \<inter> set punctuation = {}"
proof -
  have e: "fst (generate_password 2 False False (\<lambda>_. 0)) = ''Aa''" by code_simp
  show ?thesis
    using e generate_password_universe [of 2 False False "\<lambda>_. 0"] by simp
qed

subsection \<open>The master password\<close>

lemma initialize_encryption_keeps:
  "master_hash_file (snd (initialize_encryption L s)) = master_hash_file s"
  by (simp add: initialize_encryption_def urandom_def Let_def split: option.splits)

lemma initialize_encryption_result:
  "fst (initialize_encryption L s) = (if key_accepted L s then Inr () else Inl ValueError)"
  by (simp add: initialize_encryption_def key_accepted_def urandom_def Let_def
        split: option.splits)

lemma load_passwords_keeps:
  "master_hash_file (snd (load_passwords L s)) = master_hash_file s"
  by (simp add: load_passwords_def print_msg_def split: option.splits cipher.splits)

lemma setup_master_password_matching:
  assumes "master_hash_file s = Some stored_hash"
    and "hash_password L candidate = stored_hash"
  shows "setup_master_password L candidate confirm s =
           (case initialize_encryption L s of
              (Inl e, s3) \<Rightarrow> (Inl e, s3)
            | (Inr u, s3) \<Rightarrow>
                (case load_passwords L s3 of
                   (d, s4) \<Rightarrow> (Inr True, s4\<lparr>passwords := d\<rparr>)))"
  using assms by (simp add: setup_master_password_def load_master_hash_def)

text \<open>
  Claim C4 says that a candidate whose hash equals the stored hash is answered with
  \<open>Unlocked\<close>. In the source the check is followed by \<^verbatim>\<open>Fernet(self.key)\<close>, which nothing
  guards: with the right password and a key file that does not hold a Fernet key, the
  call raises \<^verbatim>\<open>ValueError\<close> and \<open>setup_master_password\<close> returns nothing.
\<close>

theorem setup_master_password_bad_key_counterexample:
  "master_hash_file (init (Some ''not a key'') None (Some ''#correct'') True (\<lambda>_. 0)) =
     Some ''#correct'' \<and>
   hash_password demo_lib ''correct'' = ''#correct'' \<and>
   fst (setup_master_password demo_lib ''correct'' []
          (init (Some ''not a key'') None (Some ''#correct'') True (\<lambda>_. 0))) =
     Inl ValueError"
  by (simp add: setup_master_password_def load_master_hash_def initialize_encryption_def
        hash_password_def init_def demo_lib_def)

text \<open>
  Claim C4, amended. When a master hash is stored, \<open>setup_master_password\<close> returns
  \<open>True\<close> for a candidate whose hash equals the stored one, provided that the library
  accepts the key that \<open>initialize_encryption\<close> loads or generates; when it does not,
  \<^verbatim>\<open>ValueError\<close> is raised instead. For a candidate whose hash differs it returns \<open>False\<close>
  and changes nothing but the printed output. The stored hash is the same afterwards in
  every case.
\<close>

theorem setup_master_password_verify:
  assumes "master_hash_file s = Some stored_hash"
  shows "(hash_password L candidate = stored_hash \<and> key_accepted L s \<longrightarrow>
            fst (setup_master_password L candidate confirm s) = Inr True) \<and>
         (hash_password L candidate = stored_hash \<and> \<not> key_accepted L s \<longrightarrow>
            fst (setup_master_password L candidate confirm s) = Inl ValueError) \<and>
         (hash_password L candidate \<noteq> stored_hash \<longrightarrow>
            setup_master_password L candidate confirm s =
              (Inr False, print_msg IncorrectMasterPassword s)) \<and>
         master_hash_file (snd (setup_master_password L candidate confirm s)) =
           Some stored_hash"
proof -
  obtain r s3 where i: "initialize_encryption L s = (r, s3)"
    by (cases "initialize_encryption L s")
  obtain d s4 where l: "load_passwords L s3 = (d, s4)"
    by (cases "load_passwords L s3")
  have r: "r = (if key_accepted L s then Inr () else Inl ValueError)"
    using initialize_encryption_result [of L s] i by simp
  have m3: "master_hash_file s3 = master_hash_file s"
    using initialize_encryption_keeps [of L s] i by simp
  have m4: "master_hash_file s4 = master_hash_file s"
    using load_passwords_keeps [of L s3] l m3 by simp
  have 1: "fst (setup_master_password L candidate confirm s) = Inr True"
    if "hash_password L candidate = stored_hash" "key_accepted L s"
    using setup_master_password_matching [OF assms that(1), of confirm] i l r that(2)
    by simp
  have 2: "fst (setup_master_password L candidate confirm s) = Inl ValueError"
    if "hash_password L candidate = stored_hash" "\<not> key_accepted L s"
    using setup_master_password_matching [OF assms that(1), of confirm] i r that(2)
    by simp
  have 3: "setup_master_password L candidate confirm s =
      (Inr False, print_msg IncorrectMasterPassword s)"
    if "hash_password L candidate \<noteq> stored_hash"
    using assms that
    by (simp add: setup_master_password_def load_master_hash_def)
  have 4: "master_hash_file (snd (setup_master_password L candidate confirm s)) =
      Some stored_hash"
  proof (cases "hash_password L candidate = stored_hash")
    case True
    show ?thesis
      using setup_master_password_matching [OF assms True, of confirm] i l r m3 m4 assms
      by (cases "key_accepted L s") simp_all
  next
    case False
    then show ?thesis using 3 assms by (simp add: print_msg_def)
  qed
  show ?thesis using 1 2 3 4 by blast
qed

text \<open>
  The instances of the amended C4 for the stored hash of the password \<open>''correct''\<close>:
  tried with \<open>''correct''\<close> and with \<open>''wrong''\<close> on a key file that holds a key, and with
  \<open>''correct''\<close> on a key file that does not.
\<close>

theorem setup_master_password_verify_witness:
  "master_hash_file (init (Some demo_key) None (Some ''#correct'') True (\<lambda>_. 0)) =
     Some ''#correct'' \<and>
   key_accepted demo_lib (init (Some demo_key) None (Some ''#correct'') True (\<lambda>_. 0)) \<and>
   fst (setup_master_password demo_lib ''correct'' []
          (init (Some demo_key) None (Some ''#correct'') True (\<lambda>_. 0))) = Inr True \<and>
   fst (setup_master_password demo_lib ''wrong'' []
          (init (Some demo_key) None (Some ''#correct'') True (\<lambda>_. 0))) = Inr False \<and>
   master_hash_file (snd (setup_master_password demo_lib ''wrong'' []
          (init (Some demo_key) None (Some ''#correct'') True (\<lambda>_. 0)))) =
     Some ''#correct'' \<and>
   master_hash_file (init (Some ''not a key'') None (Some ''#correct'') True (\<lambda>_. 0)) =
     Some ''#correct'' \<and>
   \<not> key_accepted demo_lib
       (init (Some ''not a key'') None (Some ''#correct'') True (\<lambda>_. 0)) \<and>
   fst (setup_master_password demo_lib ''correct'' []
          (init (Some ''not a key'') None (Some ''#correct'') True (\<lambda>_. 0))) =
     Inl ValueError"
proof -
  let ?s = "init (Some demo_key) None (Some ''#correct'') True (\<lambda>_. 0)"
  let ?t = "init (Some ''not a key'') None (Some ''#correct'') True (\<lambda>_. 0)"
  have h: "master_hash_file ?s = Some ''#correct''"
    and g: "master_hash_file ?t = Some ''#correct''"
    by (simp_all add: init_def)
  have k: "key_accepted demo_lib ?s"
    and n: "\<not> key_accepted demo_lib ?t"
    by (simp_all add: key_accepted_def init_def demo_lib_def demo_key_def)
  have c: "hash_password demo_lib ''correct'' = ''#correct''"
    and w: "hash_password demo_lib ''wrong'' \<noteq> ''#correct''"
    by (simp_all add: hash_password_def demo_lib_def)
  have 1: "fst (setup_master_password demo_lib ''correct'' [] ?s) = Inr True"
    using c k setup_master_password_verify [OF h, where L = demo_lib
        and candidate = "''correct''" and confirm = "[]"]
    by blast
  have 2: "setup_master_password demo_lib ''wrong'' [] ?s =
      (Inr False, print_msg IncorrectMasterPassword ?s)"
    using w setup_master_password_verify [OF h, where L = demo_lib
        and candidate = "''wrong''" and confirm = "[]"]
    by blast
  have 3: "master_hash_file (snd (setup_master_password demo_lib ''wrong'' [] ?s)) =
      Some ''#correct''"
    using setup_master_password_verify [OF h, where L = demo_lib
        and candidate = "''wrong''" and confirm = "[]"]
    by blast
  have 4: "fst (setup_master_password demo_lib ''correct'' [] ?t) = Inl ValueError"
    using c n setup_master_password_verify [OF g, where L = demo_lib
        and candidate = "''correct''" and confirm = "[]"]
    by blast
  show ?thesis
    using h g k n 1 2 3 4 by simp
qed

subsection \<open>Loading and saving\<close>

text \<open>
  Claim C2 says that a data file that fails to decrypt is answered with a typed error
  and never with an empty vault. The source catches the exception, prints it and returns
  the empty dictionary, which is also its answer when there is no data file.
\<close>

theorem load_passwords_corrupt_counterexample:
  "data_file (demo_state [] (Some ''garbage'') True) = Some ''garbage'' \<and>
   fernet_decrypt demo_lib demo_key ''garbage'' = None \<and>
   load_passwords demo_lib (demo_state [] (Some ''garbage'') True) =
     ([], print_msg (ErrorLoadingPasswords InvalidToken) (demo_state [] (Some ''garbage'') True)) \<and>
   fst (load_passwords demo_lib (demo_state [] None True)) = []"
  by (simp add: load_passwords_def demo_state_def demo_lib_def demo_key_def)

text \<open>
  Claim C2, amended. When the data file exists and does not decrypt, or decrypts to a
  payload that does not parse, \<open>load_passwords\<close> prints the error and returns the empty
  vault.
\<close>

theorem load_passwords_failure:
  assumes "data_file s = Some blob" and "cipher s = Some (Fernet k)"
  shows "(fernet_decrypt L k blob = None \<longrightarrow>
            load_passwords L s = ([], print_msg (ErrorLoadingPasswords InvalidToken) s)) \<and>
         (\<forall>p. fernet_decrypt L k blob = Some p \<and> json_loads L p = None \<longrightarrow>
            load_passwords L s = ([], print_msg (ErrorLoadingPasswords ValueError) s))"
  using assms by (simp add: load_passwords_def)

text \<open>
  The instances of the amended C2 for a file that does not decrypt and for a file that
  decrypts to a payload that does not parse.
\<close>

theorem load_passwords_failure_witness:
  "data_file (demo_state [] (Some ''garbage'') True) = Some ''garbage'' \<and>
   cipher (demo_state [] (Some ''garbage'') True) = Some (Fernet demo_key) \<and>
   fernet_decrypt demo_lib demo_key ''garbage'' = None \<and>
   load_passwords demo_lib (demo_state [] (Some ''garbage'') True) =
     ([], print_msg (ErrorLoadingPasswords InvalidToken) (demo_state [] (Some ''garbage'') True)) \<and>
   data_file (demo_state [] (Some (demo_key @ ''{'')) True) = Some (demo_key @ ''{'') \<and>
   fernet_decrypt demo_lib demo_key (demo_key @ ''{'') = Some ''{'' \<and> json_loads demo_lib ''{'' = None \<and>
   load_passwords demo_lib (demo_state [] (Some (demo_key @ ''{'')) True) =
     ([], print_msg (ErrorLoadingPasswords ValueError) (demo_state [] (Some (demo_key @ ''{'')) True))"
proof -
  have a: "data_file (demo_state [] (Some ''garbage'') True) = Some ''garbage''"
    and b: "cipher (demo_state [] (Some ''garbage'') True) = Some (Fernet demo_key)"
    and c: "data_file (demo_state [] (Some (demo_key @ ''{'')) True) = Some (demo_key @ ''{'')"
    and d: "cipher (demo_state [] (Some (demo_key @ ''{'')) True) = Some (Fernet demo_key)"
    by (simp_all add: demo_state_def)
  have e: "fernet_decrypt demo_lib demo_key ''garbage'' = None"
    and f: "fernet_decrypt demo_lib demo_key (demo_key @ ''{'') = Some ''{''"
    and g: "json_loads demo_lib ''{'' = None"
    by (simp_all add: demo_lib_def demo_key_def)
  show ?thesis
    using a b c e f g load_passwords_failure [OF a b, of demo_lib]
      load_passwords_failure [OF c d, of demo_lib]
    by simp
qed

lemma lower_Gmail:
  "str_lower demo_lib ''Gmail'' = ''gmail''" "str_lower demo_lib ''gmail'' = ''gmail''"
  "ascii_lower ''Gmail'' = ''gmail''" "ascii_lower ''gmail'' = ''gmail''"
  by code_simp+

text \<open>
  Claim C3 says that a mutating operation whose write fails returns an error to its
  caller. In the source \<open>save_passwords\<close> catches the exception and prints it: with a
  data file that cannot be written, \<open>add_password\<close> changes the vault in memory, leaves
  the file as it was and ends with the line that reports success.
\<close>

theorem add_password_unwritable_counterexample:
  "data_file (demo_state [] (Some demo_key) False) = Some demo_key \<and>
   data_file (add_password demo_lib ''Gmail'' ''alice'' (Some ''pw1'')
                (demo_state [] (Some demo_key) False)) = Some demo_key \<and>
   passwords (add_password demo_lib ''Gmail'' ''alice'' (Some ''pw1'')
                (demo_state [] (Some demo_key) False)) =
     [(''gmail'', \<lparr>service = ''Gmail'', username = ''alice'', password = ''pw1''\<rparr>)] \<and>
   stdout (add_password demo_lib ''Gmail'' ''alice'' (Some ''pw1'')
             (demo_state [] (Some demo_key) False)) =
     [ErrorSavingPasswords OSError, PasswordSavedFor ''Gmail'']"
  by (simp add: add_password_def password_or_generated_def save_passwords_def urandom_def
        print_msg_def demo_state_def lower_Gmail Let_def)

lemma save_after_update:
  assumes "cipher s = None \<or> \<not> data_file_writable s"
  shows "data_file (save_passwords L (s\<lparr>passwords := v\<rparr>)) = data_file s"
    and "stdout (save_passwords L (s\<lparr>passwords := v\<rparr>)) =
           stdout s @ [ErrorSavingPasswords (if cipher s = None then AttributeError else OSError)]"
  using save_passwords_fails [of "s\<lparr>passwords := v\<rparr>" L] assms by simp_all

text \<open>
  Claim C3, amended. When saving fails (no cipher, or a data file that cannot be
  written), each of \<open>add_password\<close>, \<open>delete_password\<close> and \<open>update_password\<close>
  still changes the vault in memory, leaves the data file as it was, prints the error of
  the failed save and then its own line of success, and returns normally.
\<close>

theorem mutations_complete_when_save_fails:
  assumes "cipher s = None \<or> \<not> data_file_writable s"
  shows "data_file (add_password L svc user pw s) = data_file s \<and>
         passwords (add_password L svc user pw s) =
           AList.update (str_lower L svc)
             \<lparr>service = svc, username = user, password = fst (password_or_generated pw s)\<rparr>
             (passwords s) \<and>
         stdout (add_password L svc user pw s) =
           stdout (snd (password_or_generated pw s)) @
           [ErrorSavingPasswords (if cipher s = None then AttributeError else OSError),
            PasswordSavedFor svc] \<and>
         (\<forall>r. map_of (passwords s) (str_lower L svc) = Some r \<longrightarrow>
            data_file (delete_password L svc s) = data_file s \<and>
            passwords (delete_password L svc s) = AList.delete (str_lower L svc) (passwords s) \<and>
            stdout (delete_password L svc s) =
              stdout s @
              [ErrorSavingPasswords (if cipher s = None then AttributeError else OSError),
               PasswordDeletedFor (service r)] \<and>
            data_file (update_password L svc pw s) = data_file s \<and>
            passwords (update_password L svc pw s) =
              AList.update (str_lower L svc) (r\<lparr>password := fst (password_or_generated pw s)\<rparr>)
                (passwords s) \<and>
            stdout (update_password L svc pw s) =
              stdout (snd (password_or_generated pw s)) @
              [ErrorSavingPasswords (if cipher s = None then AttributeError else OSError),
               PasswordUpdatedFor (service r)])"
proof -
  obtain p s1 where e: "password_or_generated pw s = (p, s1)"
    by (cases "password_or_generated pw s")
  have k: "cipher s1 = cipher s" "data_file s1 = data_file s"
    "data_file_writable s1 = data_file_writable s" "passwords s1 = passwords s"
    using password_or_generated_keeps [of pw s] e by simp_all
  have f1: "cipher s1 = None \<or> \<not> data_file_writable s1" using assms k by simp
  have a1: "data_file (add_password L svc user pw s) = data_file s"
    using e k save_after_update(1) [OF f1]
    by (simp add: add_password_def print_msg_def Let_def)
  have a2: "stdout (add_password L svc user pw s) =
      stdout (snd (password_or_generated pw s)) @
      [ErrorSavingPasswords (if cipher s = None then AttributeError else OSError),
       PasswordSavedFor svc]"
    using e k save_after_update(2) [OF f1]
    by (simp add: add_password_def print_msg_def Let_def)
  have d: "data_file (delete_password L svc s) = data_file s \<and>
       stdout (delete_password L svc s) =
         stdout s @
         [ErrorSavingPasswords (if cipher s = None then AttributeError else OSError),
          PasswordDeletedFor (service r)]"
    if "map_of (passwords s) (str_lower L svc) = Some r" for r
    using that save_after_update [OF assms]
    by (simp add: delete_password_def print_msg_def Let_def)
  have u: "data_file (update_password L svc pw s) = data_file s \<and>
       stdout (update_password L svc pw s) =
         stdout (snd (password_or_generated pw s)) @
         [ErrorSavingPasswords (if cipher s = None then AttributeError else OSError),
          PasswordUpdatedFor (service r)]"
    if "map_of (passwords s) (str_lower L svc) = Some r" for r
    using that e k save_after_update [OF f1]
    by (simp add: update_password_def print_msg_def Let_def)
  have u2: "passwords (update_password L svc pw s) =
       AList.update (str_lower L svc) (r\<lparr>password := fst (password_or_generated pw s)\<rparr>)
         (passwords s)"
    if "map_of (passwords s) (str_lower L svc) = Some r" for r
    using that by (simp add: update_password_passwords)
  show ?thesis
    using a1 a2 d u u2 add_password_passwords [of L svc user pw s]
      delete_password_passwords [of L svc s]
    by simp
qed

text \<open>
  The instance of the amended C3 for \<open>add_password\<close> on a data file that cannot be
  written.
\<close>

theorem mutations_complete_when_save_fails_witness:
  "(cipher (demo_state [] (Some demo_key) False) = None \<or>
      \<not> data_file_writable (demo_state [] (Some demo_key) False)) \<and>
   data_file (add_password demo_lib ''Gmail'' ''alice'' (Some ''pw1'')
                (demo_state [] (Some demo_key) False)) = Some demo_key \<and>
   stdout (add_password demo_lib ''Gmail'' ''alice'' (Some ''pw1'')
             (demo_state [] (Some demo_key) False)) =
     [ErrorSavingPasswords OSError, PasswordSavedFor ''Gmail'']"
proof -
  have h: "cipher (demo_state [] (Some demo_key) False) = None \<or>
      \<not> data_file_writable (demo_state [] (Some demo_key) False)"
    by (simp add: demo_state_def)
  show ?thesis
    using h mutations_complete_when_save_fails [OF h, of demo_lib "''Gmail''" "''alice''" "Some ''pw1''"]
    by (simp add: password_or_generated_def demo_state_def)
qed

subsection \<open>The vault\<close>

lemma length_update_present:
  "k \<in> fst ` set al \<Longrightarrow> length (AList.update k v al) = length al"
  by (induction al) auto

lemma filter_key_split: "filter (\<lambda>(k, r). k = x) v = filter (\<lambda>e. fst e = x) v"
  by (simp add: case_prod_unfold)

lemma vault_inv_service_filter:
  assumes "vault_inv L v"
  shows "filter (\<lambda>(k, r). str_lower L (service r) = x) v = filter (\<lambda>e. fst e = x) v"
proof (rule filter_cong [OF refl])
  fix e assume "e \<in> set v"
  then have "fst e = str_lower L (service (snd e))"
    using assms by (auto simp: vault_inv_def)
  then show "(case e of (k, r) \<Rightarrow> str_lower L (service r) = x) = (fst e = x)"
    by (simp add: case_prod_unfold)
qed

text \<open>
  Claim C5. The vault holds at most one record per lowercased service name, lowercased
  by the library's \<^verbatim>\<open>str.lower\<close>: the invariant holds for the empty vault of a new manager and is kept by \<open>add_password\<close>,
  \<open>delete_password\<close> and \<open>update_password\<close> (\<open>get_password\<close> and \<open>search\<close> do not change
  the vault). Adding a record whose service has the same lowercased form as the service
  of the record added before overwrites it: exactly one record is left under that key,
  with the fields of the second call, and the vault does not grow.
\<close>

theorem vault_one_record_per_key:
  assumes "vault_inv L (passwords s)"
  shows "vault_inv L (passwords (init kf df mf w rs)) \<and>
         vault_inv L (passwords (add_password L svc user pw s)) \<and>
         vault_inv L (passwords (delete_password L svc s)) \<and>
         vault_inv L (passwords (update_password L svc pw s)) \<and>
         passwords (snd (search L q s)) = passwords s \<and>
         (\<forall>x. length (filter (\<lambda>(k, r). str_lower L (service r) = x) (passwords s)) \<le> 1) \<and>
         (str_lower L svc' = str_lower L svc \<longrightarrow>
            filter (\<lambda>(k, r). k = str_lower L svc)
              (passwords (add_password L svc' user' pw' (add_password L svc user pw s))) =
              [(str_lower L svc,
                \<lparr>service = svc', username = user',
                 password =
                   fst (password_or_generated pw' (add_password L svc user pw s))\<rparr>)] \<and>
            length (passwords (add_password L svc' user' pw' (add_password L svc user pw s))) =
              length (passwords (add_password L svc user pw s)))"
proof -
  have n: "vault_inv L (passwords (init kf df mf w rs))"
    by (simp add: init_def vault_inv_def)
  have a: "vault_inv L (passwords (add_password L svc user pw s))" for svc user pw
    using assms by (simp add: add_password_passwords vault_inv_update)
  have d: "vault_inv L (passwords (delete_password L svc s))"
    using assms by (simp add: delete_password_passwords vault_inv_delete)
  have u: "vault_inv L (passwords (update_password L svc pw s))"
  proof (cases "map_of (passwords s) (str_lower L svc)")
    case None
    then show ?thesis using assms by (simp add: update_password_passwords)
  next
    case (Some r)
    then have "(str_lower L svc, r) \<in> set (passwords s)" by (rule map_of_SomeD)
    then have "str_lower L svc = str_lower L (service r)"
      using assms by (auto simp: vault_inv_def)
    then show ?thesis
      using assms Some by (simp add: update_password_passwords vault_inv_update)
  qed
  have q: "passwords (snd (search L q s)) = passwords s"
    by (simp add: search_def print_msg_def print_all_def Let_def)
  have o: "length (filter (\<lambda>(k, r). str_lower L (service r) = x) (passwords s)) \<le> 1" for x
    using assms distinct_filter_key [of "passwords s" x]
    by (simp add: vault_inv_service_filter vault_inv_def)
  have w: "filter (\<lambda>(k, r). k = str_lower L svc)
        (passwords (add_password L svc' user' pw' (add_password L svc user pw s))) =
      [(str_lower L svc,
        \<lparr>service = svc', username = user',
         password = fst (password_or_generated pw' (add_password L svc user pw s))\<rparr>)] \<and>
      length (passwords (add_password L svc' user' pw' (add_password L svc user pw s))) =
        length (passwords (add_password L svc user pw s))"
    if e: "str_lower L svc' = str_lower L svc"
  proof -
    let ?s1 = "add_password L svc user pw s"
    have dist: "distinct (map fst (passwords ?s1))"
      using a [of svc user pw] by (simp add: vault_inv_def)
    have "str_lower L svc \<in> fst ` set (passwords ?s1)"
      by (simp add: add_password_passwords dom_update)
    then show ?thesis
      using e dist
      by (simp add: add_password_passwords [of L svc' user' pw' ?s1] filter_key_split
            filter_key_update length_update_present)
  qed
  show ?thesis using n a d u q o w by blast
qed

text \<open>
  The instance of C5 for the services \<open>''Gmail''\<close> and \<open>''gmail''\<close>, added in this order
  to the empty vault.
\<close>

theorem vault_one_record_per_key_witness:
  "vault_inv demo_lib (passwords (demo_state [] (Some demo_key) True)) \<and>
   str_lower demo_lib ''gmail'' = str_lower demo_lib ''Gmail'' \<and>
   passwords (add_password demo_lib ''gmail'' ''bob'' (Some ''pw2'')
     (add_password demo_lib ''Gmail'' ''alice'' (Some ''pw1'')
        (demo_state [] (Some demo_key) True))) =
     [(''gmail'', \<lparr>service = ''gmail'', username = ''bob'', password = ''pw2''\<rparr>)] \<and>
   vault_inv demo_lib (passwords (add_password demo_lib ''gmail'' ''bob'' (Some ''pw2'')
     (add_password demo_lib ''Gmail'' ''alice'' (Some ''pw1'')
        (demo_state [] (Some demo_key) True)))) \<and>
   filter (\<lambda>(k, r). k = ''gmail'')
     (passwords (add_password demo_lib ''gmail'' ''bob'' (Some ''pw2'')
       (add_password demo_lib ''Gmail'' ''alice'' (Some ''pw1'')
          (demo_state [] (Some demo_key) True)))) =
     [(''gmail'', \<lparr>service = ''gmail'', username = ''bob'', password = ''pw2''\<rparr>)]"
proof -
  let ?s0 = "demo_state [] (Some demo_key) True"
  let ?s1 = "add_password demo_lib ''Gmail'' ''alice'' (Some ''pw1'') ?s0"
  have h: "vault_inv demo_lib (passwords ?s0)"
    by (simp add: vault_inv_def demo_state_def)
  have h1: "vault_inv demo_lib (passwords ?s1)"
    using vault_one_record_per_key [OF h, where svc = "''Gmail''"
        and user = "''alice''" and pw = "Some ''pw1''"]
    by simp
  have p: "passwords (add_password demo_lib ''gmail'' ''bob'' (Some ''pw2'') ?s1) =
      [(''gmail'', \<lparr>service = ''gmail'', username = ''bob'', password = ''pw2''\<rparr>)]"
    by (simp add: add_password_passwords password_or_generated_def lower_Gmail demo_state_def)
  show ?thesis
    using h p lower_Gmail
      vault_one_record_per_key [OF h1, where svc = "''gmail''"
        and user = "''bob''" and pw = "Some ''pw2''"]
    by simp
qed

text \<open>
  Claim C8 says that \<open>delete\<close> persists the new state and answers a missing record
  with a typed error. In the source the save may fail without notice and the missing
  record is only printed: on a data file that cannot be written, the record is removed
  in memory while the file keeps the old ciphertext, which is not the encryption of the
  new vault, and the second delete adds one printed line and nothing else.
\<close>

theorem delete_password_unwritable_counterexample:
  "get_password demo_lib ''gmail''
     (demo_state [(''gmail'', \<lparr>service = ''Gmail'', username = ''alice'', password = ''pw1''\<rparr>)]
        (Some (demo_key @ ''gmail:alice:pw1;'')) False) =
     Some \<lparr>service = ''Gmail'', username = ''alice'', password = ''pw1''\<rparr> \<and>
   passwords (delete_password demo_lib ''gmail''
     (demo_state [(''gmail'', \<lparr>service = ''Gmail'', username = ''alice'', password = ''pw1''\<rparr>)]
        (Some (demo_key @ ''gmail:alice:pw1;'')) False)) = [] \<and>
   fernet_encrypt demo_lib demo_key 0 (json_dumps demo_lib []) = demo_key \<and>
   data_file (delete_password demo_lib ''gmail''
     (demo_state [(''gmail'', \<lparr>service = ''Gmail'', username = ''alice'', password = ''pw1''\<rparr>)]
        (Some (demo_key @ ''gmail:alice:pw1;'')) False)) = Some (demo_key @ ''gmail:alice:pw1;'') \<and>
   stdout (delete_password demo_lib ''gmail''
     (demo_state [(''gmail'', \<lparr>service = ''Gmail'', username = ''alice'', password = ''pw1''\<rparr>)]
        (Some (demo_key @ ''gmail:alice:pw1;'')) False)) =
     [ErrorSavingPasswords OSError, PasswordDeletedFor ''Gmail''] \<and>
   stdout (delete_password demo_lib ''gmail'' (delete_password demo_lib ''gmail''
     (demo_state [(''gmail'', \<lparr>service = ''Gmail'', username = ''alice'', password = ''pw1''\<rparr>)]
        (Some (demo_key @ ''gmail:alice:pw1;'')) False))) =
     [ErrorSavingPasswords OSError, PasswordDeletedFor ''Gmail'', NoPasswordFoundFor ''gmail'']"
  by (simp add: delete_password_def get_password_def save_passwords_def urandom_def
        print_msg_def demo_state_def demo_lib_def lower_Gmail Let_def)

lemma get_after_delete: "get_password L svc (delete_password L svc s) = None"
  by (simp add: get_password_def delete_password_passwords delete_conv')

text \<open>
  Claim C8, amended. \<open>delete_password\<close> removes the record stored under the lowercased
  service name from the vault in memory and calls \<open>save_passwords\<close>, which writes the
  encryption of the new vault when a cipher is loaded and the data file can be written,
  and otherwise prints the error and leaves the file as it was. When no record is stored
  under that name, it prints that no password was found and changes nothing else; no
  error value is returned on either path. After the delete of a stored service,
  \<open>get_password\<close> of that service returns \<open>None\<close> and a second delete takes the
  not-found path.
\<close>

theorem delete_password_behaviour:
  "(map_of (passwords s) (str_lower L svc) = None \<longrightarrow>
      delete_password L svc s = print_msg (NoPasswordFoundFor svc) s) \<and>
   (\<forall>r. map_of (passwords s) (str_lower L svc) = Some r \<longrightarrow>
      passwords (delete_password L svc s) = AList.delete (str_lower L svc) (passwords s) \<and>
      get_password L svc (delete_password L svc s) = None \<and>
      delete_password L svc (delete_password L svc s) =
        print_msg (NoPasswordFoundFor svc) (delete_password L svc s) \<and>
      last (stdout (delete_password L svc s)) = PasswordDeletedFor (service r) \<and>
      (\<forall>k. cipher s = Some (Fernet k) \<and> data_file_writable s \<longrightarrow>
         data_file (delete_password L svc s) =
           Some (fernet_encrypt L k (entropy s 0)
                   (json_dumps L (AList.delete (str_lower L svc) (passwords s))))) \<and>
      (cipher s = None \<or> \<not> data_file_writable s \<longrightarrow>
         data_file (delete_password L svc s) = data_file s \<and>
         stdout (delete_password L svc s) =
           stdout s @
           [ErrorSavingPasswords (if cipher s = None then AttributeError else OSError),
            PasswordDeletedFor (service r)]))"
proof -
  have n: "delete_password L svc s = print_msg (NoPasswordFoundFor svc) s"
    if "map_of (passwords s) (str_lower L svc) = None" for s
    using that by (simp add: delete_password_def)
  have g: "get_password L svc (delete_password L svc s) = None"
    by (rule get_after_delete)
  have t: "delete_password L svc (delete_password L svc s) =
      print_msg (NoPasswordFoundFor svc) (delete_password L svc s)"
    using g n [of "delete_password L svc s"] by (simp add: get_password_def)
  have l: "last (stdout (delete_password L svc s)) = PasswordDeletedFor (service r)"
    if "map_of (passwords s) (str_lower L svc) = Some r" for r
    using that by (simp add: delete_password_def print_msg_def Let_def)
  have ok: "data_file (delete_password L svc s) =
      Some (fernet_encrypt L k (entropy s 0)
              (json_dumps L (AList.delete (str_lower L svc) (passwords s))))"
    if "map_of (passwords s) (str_lower L svc) = Some r" "cipher s = Some (Fernet k)"
      "data_file_writable s" for r k
    using that
    by (simp add: delete_password_def print_msg_def save_passwords_def urandom_def Let_def)
  have bad: "data_file (delete_password L svc s) = data_file s \<and>
      stdout (delete_password L svc s) =
        stdout s @
        [ErrorSavingPasswords (if cipher s = None then AttributeError else OSError),
         PasswordDeletedFor (service r)]"
    if "map_of (passwords s) (str_lower L svc) = Some r"
      "cipher s = None \<or> \<not> data_file_writable s" for r
    using that(1) save_after_update [OF that(2)]
    by (simp add: delete_password_def print_msg_def Let_def)
  show ?thesis
    using n [of s] g t l ok bad delete_password_passwords [of L svc s] by blast
qed

text \<open>
  The instances of the amended C8 for the delete of a stored service on a writable data
  file and for the delete of a service that is not stored.
\<close>

theorem delete_password_behaviour_witness:
  "map_of (passwords
     (demo_state [(''gmail'', \<lparr>service = ''Gmail'', username = ''alice'', password = ''pw1''\<rparr>)]
        (Some (demo_key @ ''gmail:alice:pw1;'')) True)) (str_lower demo_lib ''GMAIL'') =
     Some \<lparr>service = ''Gmail'', username = ''alice'', password = ''pw1''\<rparr> \<and>
   passwords (delete_password demo_lib ''GMAIL''
     (demo_state [(''gmail'', \<lparr>service = ''Gmail'', username = ''alice'', password = ''pw1''\<rparr>)]
        (Some (demo_key @ ''gmail:alice:pw1;'')) True)) = [] \<and>
   get_password demo_lib ''GMAIL'' (delete_password demo_lib ''GMAIL''
     (demo_state [(''gmail'', \<lparr>service = ''Gmail'', username = ''alice'', password = ''pw1''\<rparr>)]
        (Some (demo_key @ ''gmail:alice:pw1;'')) True)) = None \<and>
   data_file (delete_password demo_lib ''GMAIL''
     (demo_state [(''gmail'', \<lparr>service = ''Gmail'', username = ''alice'', password = ''pw1''\<rparr>)]
        (Some (demo_key @ ''gmail:alice:pw1;'')) True)) = Some demo_key \<and>
   map_of (passwords (demo_state [] None True)) (str_lower demo_lib ''GMAIL'') = None \<and>
   delete_password demo_lib ''GMAIL'' (demo_state [] None True) =
     print_msg (NoPasswordFoundFor ''GMAIL'') (demo_state [] None True)"
proof -
  let ?r = "\<lparr>service = ''Gmail'', username = ''alice'', password = ''pw1''\<rparr>"
  let ?s = "demo_state [(''gmail'', ?r)] (Some (demo_key @ ''gmail:alice:pw1;'')) True"
  have lw: "str_lower demo_lib ''GMAIL'' = ''gmail''" by code_simp
  have a: "map_of (passwords ?s) (str_lower demo_lib ''GMAIL'') = Some ?r"
    by (simp add: lw demo_state_def)
  have b: "map_of (passwords (demo_state [] None True)) (str_lower demo_lib ''GMAIL'') = None"
    by (simp add: demo_state_def)
  have c: "cipher ?s = Some (Fernet demo_key) \<and> data_file_writable ?s" "entropy ?s 0 = 0"
    "passwords ?s = [(''gmail'', ?r)]"
    by (simp_all add: demo_state_def)
  have e: "fernet_encrypt demo_lib demo_key 0 (json_dumps demo_lib []) = demo_key"
    by (simp add: demo_lib_def)
  show ?thesis
    using a b c e lw delete_password_behaviour [where s = ?s and svc = "''GMAIL''" and L = demo_lib]
      delete_password_behaviour [where s = "demo_state [] None True" and svc = "''GMAIL''"
        and L = demo_lib]
    by simp
qed

lemma search_results:
  "fst (search L q s) =
     filter (\<lambda>(k, v). sublist (str_lower L q) k \<or> sublist (str_lower L q) (str_lower L (username v)))
       (passwords s)"
  by (simp add: search_def Let_def)

text \<open>
  Claim C9. \<open>search\<close> returns exactly the entries of the vault, in the order of the
  vault, whose key contains the lowercased query or whose lowercased username contains
  it, as a contiguous substring; under the invariant of the vault the key is the
  lowercased service name. Lowercasing is the library's \<^verbatim>\<open>str.lower\<close>. The empty query,
  whose lowercased form is empty, returns the whole vault, and a query that no key and
  no username contains returns nothing.
\<close>

theorem search_exact:
  "fst (search L q s) =
     filter (\<lambda>(k, v). (\<exists>ps ss. k = ps @ str_lower L q @ ss) \<or>
                       (\<exists>ps ss. str_lower L (username v) = ps @ str_lower L q @ ss))
       (passwords s) \<and>
   (str_lower L [] = [] \<longrightarrow> fst (search L [] s) = passwords s) \<and>
   ((\<forall>(k, v) \<in> set (passwords s).
       \<not> sublist (str_lower L q) k \<and> \<not> sublist (str_lower L q) (str_lower L (username v))) \<longrightarrow>
      fst (search L q s) = []) \<and>
   (vault_inv L (passwords s) \<longrightarrow>
      fst (search L q s) =
        filter (\<lambda>(k, v). sublist (str_lower L q) (str_lower L (service v)) \<or>
                          sublist (str_lower L q) (str_lower L (username v)))
          (passwords s))"
proof -
  have 1: "fst (search L q s) =
      filter (\<lambda>(k, v). (\<exists>ps ss. k = ps @ str_lower L q @ ss) \<or>
                        (\<exists>ps ss. str_lower L (username v) = ps @ str_lower L q @ ss))
        (passwords s)"
    by (simp add: search_results sublist_def)
  have 2: "fst (search L [] s) = passwords s" if "str_lower L [] = []"
    using that by (simp add: search_results)
  have 3: "fst (search L q s) = []"
    if "\<forall>(k, v) \<in> set (passwords s).
          \<not> sublist (str_lower L q) k \<and> \<not> sublist (str_lower L q) (str_lower L (username v))"
    using that by (auto simp: search_results filter_empty_conv)
  have 4: "fst (search L q s) =
      filter (\<lambda>(k, v). sublist (str_lower L q) (str_lower L (service v)) \<or>
                        sublist (str_lower L q) (str_lower L (username v)))
        (passwords s)"
    if "vault_inv L (passwords s)"
    unfolding search_results
  proof (rule filter_cong [OF refl])
    fix e assume "e \<in> set (passwords s)"
    then have "fst e = str_lower L (service (snd e))"
      using that by (auto simp: vault_inv_def)
    then show "(case e of (k, v) \<Rightarrow>
          sublist (str_lower L q) k \<or> sublist (str_lower L q) (str_lower L (username v))) =
        (case e of (k, v) \<Rightarrow>
          sublist (str_lower L q) (str_lower L (service v)) \<or> sublist (str_lower L q) (str_lower L (username v)))"
      by (simp add: case_prod_unfold)
  qed
  show ?thesis using 1 2 3 4 by blast
qed

text \<open>
  The instance of C9 for a vault of four records: the query \<open>''GIT''\<close> finds two
  services and one username, in the order of the vault; the empty query finds
  everything and \<open>''zzz''\<close> nothing.
\<close>

theorem search_exact_witness:
  "vault_inv demo_lib (passwords (demo_state demo_vault None True)) \<and>
   fst (search demo_lib ''GIT'' (demo_state demo_vault None True)) =
     [(''github'', \<lparr>service = ''GitHub'', username = ''alice'', password = ''pw1''\<rparr>),
      (''gitlab'', \<lparr>service = ''Gitlab'', username = ''bob'', password = ''pw2''\<rparr>),
      (''mail'', \<lparr>service = ''Mail'', username = ''Brigit'', password = ''pw3''\<rparr>)] \<and>
   str_lower demo_lib [] = [] \<and>
   fst (search demo_lib [] (demo_state demo_vault None True)) = demo_vault \<and>
   fst (search demo_lib ''zzz'' (demo_state demo_vault None True)) = []"
proof -
  let ?s = "demo_state demo_vault None True"
  have p: "passwords ?s = demo_vault" by (simp add: demo_state_def)
  have i: "vault_inv demo_lib (passwords ?s)" unfolding p by code_simp
  have n: "\<forall>(k, v) \<in> set (passwords ?s).
      \<not> sublist (str_lower demo_lib ''zzz'') k \<and> \<not> sublist (str_lower demo_lib ''zzz'') (str_lower demo_lib (username v))"
    unfolding p by code_simp
  have g: "filter (\<lambda>(k, v). sublist (str_lower demo_lib ''GIT'') (str_lower demo_lib (service v)) \<or>
                             sublist (str_lower demo_lib ''GIT'') (str_lower demo_lib (username v))) demo_vault =
     [(''github'', \<lparr>service = ''GitHub'', username = ''alice'', password = ''pw1''\<rparr>),
      (''gitlab'', \<lparr>service = ''Gitlab'', username = ''bob'', password = ''pw2''\<rparr>),
      (''mail'', \<lparr>service = ''Mail'', username = ''Brigit'', password = ''pw3''\<rparr>)]"
    by code_simp
  have a: "fst (search demo_lib ''GIT'' ?s) =
      filter (\<lambda>(k, v). sublist (str_lower demo_lib ''GIT'') (str_lower demo_lib (service v)) \<or>
                        sublist (str_lower demo_lib ''GIT'') (str_lower demo_lib (username v))) (passwords ?s)"
    using i search_exact [where L = demo_lib and q = "''GIT''" and s = ?s] by blast
  have e: "str_lower demo_lib [] = []" by code_simp
  have b: "fst (search demo_lib [] ?s) = passwords ?s"
    using e search_exact [where L = demo_lib and q = "[]" and s = ?s] by blast
  have c: "fst (search demo_lib ''zzz'' ?s) = []"
    using n search_exact [where L = demo_lib and q = "''zzz''" and s = ?s] by blast
  show ?thesis
    using i e a b c by (simp only: p g simp_thms)
qed

subsection \<open>Saving, then loading\<close>

text \<open>
  For libraries whose decryption inverts their encryption and whose parser inverts
  their serialiser on the vault at hand, loading after a successful save returns the
  vault that was saved. Both laws are properties of the libraries, which the repository
  does not contain; they are hypotheses here.
\<close>

lemma load_after_save:
  assumes "cipher s = Some (Fernet k)" and "data_file_writable s"
    and "\<forall>r p. fernet_decrypt L k (fernet_encrypt L k r p) = Some p"
    and "json_loads L (json_dumps L (passwords s)) = Some (passwords s)"
  shows "fst (load_passwords L (save_passwords L s)) = passwords s"
  using assms by (simp add: save_passwords_ok load_passwords_def)

end
